theory Spec2Isabelle
  imports
    Complex_Main
    "HOL-Library.List_Lexorder"
    "HOL-Library.Char_ord"
    "HOL-Library.Multiset"
begin

section \<open>Python values and errors\<close>

text \<open>
  The scripts are Python over pyarrow.  A raise is a value of \<open>py_error\<close>; the
  \<^verbatim>\<open>except Exception\<close> handlers of the scripts turn it into a printed message.
\<close>

datatype py_error = ZeroDivisionError | IndexError | ValueError | OSError

text \<open>
  A column holds values of one type \<open>'k\<close> with its natural order (\<open>linorder\<close>): Python
  strings are compared code point by code point, which is the lexicographic order of
  \<open>string\<close>; Python integers are \<open>int\<close>.  Null values are not modelled.

  Python's built-in \<^verbatim>\<open>str\<close> dispatches on the type of its argument, so the model of a
  function that calls it takes the conversion as its first argument: \<open>str_str\<close> at a string
  column, \<open>str_int\<close> (the decimal numeral, with a leading minus sign) at an integer column.
\<close>

definition str_str :: "string \<Rightarrow> string" where
  "str_str s = s"

definition digit_char :: "nat \<Rightarrow> char" where
  "digit_char d = ''0123456789'' ! d"

function digits :: "nat \<Rightarrow> string" where
  "digits n = (if n < 10 then [digit_char n] else digits (n div 10) @ [digit_char (n mod 10)])"
  by pat_completeness auto
termination
  by (relation "measure (\<lambda>n. n)") auto

definition str_int :: "int \<Rightarrow> string" where
  "str_int i = (if i < 0 then CHR ''-'' # digits (nat (- i)) else digits (nat i))"


section \<open>The pruning simulator: \<^verbatim>\<open>analyze_stats.py\<close>\<close>

subsection \<open>Footer metadata of one column\<close>

text \<open>
  \<^verbatim>\<open>metadata.row_group(i)\<close> seen through the analysed column: the row count of the row
  group and \<^verbatim>\<open>col.statistics\<close>, which is \<open>None\<close> when \<^verbatim>\<open>col.is_stats_set\<close> is false.
\<close>

record 'k column_statistics =
  stat_min :: 'k
  stat_max :: 'k

record 'k row_group =
  rg_num_rows :: nat
  rg_statistics :: "'k column_statistics option"

text \<open>The dictionaries appended to \<^verbatim>\<open>stats_list\<close> (keys rg, min, max, rows).\<close>

record 'k stat =
  rg :: nat
  min_stat :: 'k
  max_stat :: 'k
  rows :: nat

subsection \<open>The scan over the row groups (lines 55 to 94)\<close>

text \<open>
  The printed table has one line per examined row group: the index, the row count and
  either the two displayed bounds with the overlap indicator (empty, "OVERLAP" or "OK") or
  the words "PAS DE STATS".  A bound longer than 30 characters is cut to 28 and two dots.
\<close>

datatype overlap_indicator = NoIndicator | OverlapWarning | OverlapOk

datatype line =
  StatsLine nat nat string string overlap_indicator
| NoStatsLine nat nat

definition display :: "string \<Rightarrow> string" where
  "display val = (if length val > 30 then take 28 val @ ''..'' else val)"

record 'k scan =
  stats_list :: "'k stat list"
  prev_max :: "string option"
  overlaps :: nat
  printed :: "line list"

definition scan_init :: "'k scan" where
  "scan_init = \<lparr>stats_list = [], prev_max = None, overlaps = 0, printed = []\<rparr>"

text \<open>One iteration of the loop body for row group \<open>rg_idx = fst ir\<close>.\<close>

definition scan_row_group ::
  "('k \<Rightarrow> string) \<Rightarrow> nat \<times> 'k row_group \<Rightarrow> 'k scan \<Rightarrow> 'k scan" where
  "scan_row_group str ir st =
     (case rg_statistics (snd ir) of
        None \<Rightarrow> st\<lparr>printed := printed st @ [NoStatsLine (fst ir) (rg_num_rows (snd ir))]\<rparr>
      | Some stats \<Rightarrow>
          (let min_val = str (stat_min stats);
               max_val = str (stat_max stats);
               overlap_indicator =
                 (case prev_max st of
                    None \<Rightarrow> NoIndicator
                  | Some p \<Rightarrow> if min_val < p then OverlapWarning else OverlapOk)
           in \<lparr>stats_list = stats_list st @
                   [\<lparr>rg = fst ir, min_stat = stat_min stats, max_stat = stat_max stats,
                     rows = rg_num_rows (snd ir)\<rparr>],
                prev_max = Some max_val,
                overlaps =
                  (case prev_max st of
                     None \<Rightarrow> overlaps st
                   | Some p \<Rightarrow> if min_val < p then overlaps st + 1 else overlaps st),
                printed = printed st @
                   [StatsLine (fst ir) (rg_num_rows (snd ir)) (display min_val)
                      (display max_val) overlap_indicator]\<rparr>))"

text \<open>
  \<^verbatim>\<open>num_to_show = min(max_row_groups, metadata.num_row_groups)\<close>; \<^verbatim>\<open>range\<close> of a negative
  number is empty.
\<close>

definition num_to_show :: "int \<Rightarrow> 'k row_group list \<Rightarrow> nat" where
  "num_to_show max_row_groups rgs = nat (min max_row_groups (int (length rgs)))"

definition examined :: "int \<Rightarrow> 'k row_group list \<Rightarrow> (nat \<times> 'k row_group) list" where
  "examined max_row_groups rgs =
     zip [0..<num_to_show max_row_groups rgs] (take (num_to_show max_row_groups rgs) rgs)"

definition scan_row_groups :: "('k \<Rightarrow> string) \<Rightarrow> int \<Rightarrow> 'k row_group list \<Rightarrow> 'k scan" where
  "scan_row_groups str max_row_groups rgs =
     fold (scan_row_group str) (examined max_row_groups rgs) scan_init"

subsection \<open>The sort analysis (lines 100 to 113)\<close>

datatype sort_analysis =
  PerfectlySorted
| PartiallySorted nat nat real  \<comment> \<open>overlaps, total comparisons, overlap percentage\<close>

definition analyse_sort :: "'k scan \<Rightarrow> sort_analysis option" where
  "analyse_sort st =
     (if length (stats_list st) > 1 then
        (let total_comparisons = length (stats_list st) - 1;
             overlap_percentage = (real (overlaps st) / real total_comparisons) * 100
         in if overlaps st = 0 then Some PerfectlySorted
            else Some (PartiallySorted (overlaps st) total_comparisons overlap_percentage))
      else None)"

subsection \<open>The query simulation (lines 116 to 145)\<close>

text \<open>
  The percentages are Python floats; the model computes them in the reals.  The three
  printed verdicts: \<open>Optimal\<close> is the line "Excellent!", \<open>Acceptable\<close> the line
  "Correct, mais pourrait etre mieux", \<open>Poor\<close> the line "Mauvais!".
\<close>

datatype verdict = Optimal | Acceptable | Poor

record 'k query_simulation =
  test_value :: 'k
  would_download :: nat
  would_skip :: nat
  skip_percentage :: real
  verdict :: verdict

text \<open>The loop over \<^verbatim>\<open>stats_list\<close>; the pair is (would_download, would_skip).\<close>

definition count_stat :: "'k::linorder \<Rightarrow> 'k stat \<Rightarrow> nat \<times> nat \<Rightarrow> nat \<times> nat" where
  "count_stat v s c =
     (if min_stat s \<le> v \<and> v \<le> max_stat s then (fst c + 1, snd c) else (fst c, snd c + 1))"

definition count_fetches :: "'k::linorder \<Rightarrow> 'k stat list \<Rightarrow> nat \<times> nat" where
  "count_fetches v sl = fold (count_stat v) sl (0, 0)"

definition classify :: "real \<Rightarrow> verdict" where
  "classify skip_pct =
     (if skip_pct > 80 then Optimal else if skip_pct > 50 then Acceptable else Poor)"

definition simulate_query :: "'k::linorder stat list \<Rightarrow> 'k query_simulation option" where
  "simulate_query sl =
     (if sl = [] then None
      else
        (let mid_idx = length sl div 2
         in if mid_idx < length sl then
              (let tv = min_stat (sl ! mid_idx);
                   c = count_fetches tv sl;
                   total_rg = length sl;
                   pct = (real (snd c) / real total_rg) * 100
               in Some \<lparr>test_value = tv, would_download = fst c, would_skip = snd c,
                         skip_percentage = pct, verdict = classify pct\<rparr>)
            else None))"

subsection \<open>The report of \<^verbatim>\<open>analyze_statistics\<close>\<close>

text \<open>
  The model is the body of the \<^verbatim>\<open>try\<close> from line 55 on: the file exists, its footer has
  been read and the column has been found (before that the function prints a message and
  returns).  The report holds what the function prints from there on; \<open>rgs\<close> are the row
  groups of the footer seen through the analysed column.
\<close>

record 'k report =
  rep_lines :: "line list"
  rep_stats :: "'k stat list"
  rep_overlaps :: nat
  rep_sort :: "sort_analysis option"
  rep_query :: "'k query_simulation option"

definition analyze_statistics ::
  "('k::linorder \<Rightarrow> string) \<Rightarrow> 'k row_group list \<Rightarrow> int \<Rightarrow> 'k report" where
  "analyze_statistics str rgs max_row_groups =
     (let st = scan_row_groups str max_row_groups rgs
      in \<lparr>rep_lines = printed st, rep_stats = stats_list st, rep_overlaps = overlaps st,
          rep_sort = analyse_sort st, rep_query = simulate_query (stats_list st)\<rparr>)"

text \<open>Row groups for examples.\<close>

definition with_stats :: "'k \<Rightarrow> 'k \<Rightarrow> nat \<Rightarrow> 'k row_group" where
  "with_stats lo hi n = \<lparr>rg_num_rows = n, rg_statistics = Some \<lparr>stat_min = lo, stat_max = hi\<rparr>\<rparr>"

definition no_stats :: "nat \<Rightarrow> 'k row_group" where
  "no_stats n = \<lparr>rg_num_rows = n, rg_statistics = None\<rparr>"

subsection \<open>What the specification asks of the simulator\<close>

text \<open>
  A partition with statistics must be fetched for \<open>v\<close> iff \<open>min \<le> v \<le> max\<close>, both bounds
  inclusive.
\<close>

definition must_fetch :: "'k::linorder \<Rightarrow> 'k stat \<Rightarrow> bool" where
  "must_fetch v s \<longleftrightarrow> min_stat s \<le> v \<and> v \<le> max_stat s"

text \<open>
  The same on the row groups of the footer: a partition that carries statistics and has \<open>v\<close>
  within its bounds, and one that carries statistics and has \<open>v\<close> outside them.
\<close>

definition within_bounds :: "'k::linorder \<Rightarrow> 'k row_group \<Rightarrow> bool" where
  "within_bounds v g =
     (case rg_statistics g of None \<Rightarrow> False | Some s \<Rightarrow> stat_min s \<le> v \<and> v \<le> stat_max s)"

definition outside_bounds :: "'k::linorder \<Rightarrow> 'k row_group \<Rightarrow> bool" where
  "outside_bounds v g =
     (case rg_statistics g of
        None \<Rightarrow> False
      | Some s \<Rightarrow> \<not> (stat_min s \<le> v \<and> v \<le> stat_max s))"

text \<open>Four row groups, the third without statistics.\<close>

definition mixed_row_groups :: "string row_group list" where
  "mixed_row_groups =
     [with_stats ''a'' ''a'' 5, with_stats ''b'' ''c'' 5, no_stats 5, with_stats ''d'' ''d'' 5]"

text \<open>Twelve row groups that all hold the one key \<open>a\<close>.\<close>

definition twelve_row_groups :: "string row_group list" where
  "twelve_row_groups =
     [with_stats ''a'' ''a'' 5, with_stats ''a'' ''a'' 5, with_stats ''a'' ''a'' 5,
      with_stats ''a'' ''a'' 5, with_stats ''a'' ''a'' 5, with_stats ''a'' ''a'' 5,
      with_stats ''a'' ''a'' 5, with_stats ''a'' ''a'' 5, with_stats ''a'' ''a'' 5,
      with_stats ''a'' ''a'' 5, with_stats ''a'' ''a'' 5, with_stats ''a'' ''a'' 5]"




text \<open>
  Adjacent partitions \<open>i\<close> and \<open>i + 1\<close> overlap when \<open>max i > min (i + 1)\<close> in the natural order
  of the column.
\<close>

fun spec_overlaps :: "'k::linorder stat list \<Rightarrow> nat" where
  "spec_overlaps (a # b # rest) =
     (if max_stat a > min_stat b then 1 else 0) + spec_overlaps (b # rest)"
| "spec_overlaps [a] = 0"
| "spec_overlaps [] = 0"


text \<open>The entry of \<^verbatim>\<open>stats_list\<close> that a row group with statistics contributes.\<close>

definition stat_entry :: "nat \<times> 'k row_group \<Rightarrow> 'k stat option" where
  "stat_entry ir =
     map_option
       (\<lambda>s. \<lparr>rg = fst ir, min_stat = stat_min s, max_stat = stat_max s,
              rows = rg_num_rows (snd ir)\<rparr>)
       (rg_statistics (snd ir))"


section \<open>The layout optimizer: \<^verbatim>\<open>optimizeParquet.py\<close>\<close>

subsection \<open>Tables and the pyarrow calls\<close>

text \<open>
  A row is the value of its \<^verbatim>\<open>origin\<close> column paired with the values of the other
  columns; a table is the list of its rows.
\<close>

definition origin :: "'k \<times> 'v \<Rightarrow> 'k" where
  "origin r = fst r"

text \<open>
  \<^verbatim>\<open>pa.compute.sort_indices(table, sort_keys=[("origin", "ascending")])\<close>: the indices of
  a stable ascending sort.
\<close>

definition sort_indices :: "('k::linorder \<times> 'v) list \<Rightarrow> nat list" where
  "sort_indices table = sort_key (\<lambda>i. origin (table ! i)) [0..<length table]"

text \<open>\<^verbatim>\<open>table.take(indices)\<close>; an index out of bounds raises.\<close>

definition take_rows :: "'r list \<Rightarrow> nat list \<Rightarrow> py_error + 'r list" where
  "take_rows table indices =
     (if list_all (\<lambda>i. i < length table) indices then Inr (map (\<lambda>i. table ! i) indices)
      else Inl IndexError)"

text \<open>
  \<^verbatim>\<open>table.slice(offset, length)\<close>: a negative offset raises, an offset beyond the end is
  clipped, and the slice holds the rows that exist from \<open>offset\<close> on, at most \<open>length\<close> of
  them (none for a negative length).
\<close>

definition slice :: "'r list \<Rightarrow> int \<Rightarrow> int \<Rightarrow> py_error + 'r list" where
  "slice table offset len =
     (if offset < 0 then Inl IndexError else Inr (take (nat len) (drop (nat offset) table)))"

text \<open>
  \<^verbatim>\<open>pq.write_table(table, file, row_group_size=100_000, write_statistics=True, ...)\<close>:
  the writer cuts the table into consecutive row groups of \<open>row_group_size\<close> rows, the last
  one shorter; a table without rows is written as one row group without rows.  A written
  file is the list of its row groups.  Compression, dictionary encoding and the bloom
  filter do not change the rows and are left out.
\<close>

definition row_group_size :: nat where
  "row_group_size = 100000"

function split_rows :: "nat \<Rightarrow> 'r list \<Rightarrow> 'r list list" where
  "split_rows sz table =
     (if sz = 0 \<or> table = [] then [] else take sz table # split_rows sz (drop sz table))"
  by pat_completeness auto
termination
  by (relation "measure (\<lambda>(sz, table). length table)") auto

declare split_rows.simps [simp del]

definition write_table :: "'r list \<Rightarrow> nat \<Rightarrow> 'r list list" where
  "write_table table rg_size = (if table = [] then [[]] else split_rows rg_size table)"

definition write_optimized_parquet :: "'r list \<Rightarrow> 'r list list" where
  "write_optimized_parquet table = write_table table row_group_size"

definition file_rows :: "'r list list \<Rightarrow> 'r list" where
  "file_rows file = concat file"

text \<open>
  \<^verbatim>\<open>pq.read_metadata\<close> on a written file, seen through the \<^verbatim>\<open>origin\<close> column: the
  statistics of a row group are the least and the greatest value of the column in it, and
  a row group without rows has none.
\<close>

definition column_stats :: "'k::linorder list \<Rightarrow> 'k column_statistics option" where
  "column_stats ks =
     (if ks = [] then None else Some \<lparr>stat_min = Min (set ks), stat_max = Max (set ks)\<rparr>)"

definition read_metadata :: "('k::linorder \<times> 'v) list list \<Rightarrow> 'k row_group list" where
  "read_metadata file =
     map (\<lambda>g. \<lparr>rg_num_rows = length g, rg_statistics = column_stats (map origin g)\<rparr>) file"

subsection \<open>\<^verbatim>\<open>optimize_parquet_file\<close>\<close>

text \<open>
  The output files are named \<^verbatim>\<open><base>.parquet\<close> (\<open>Whole\<close>) or \<^verbatim>\<open><base>_<i>.parquet\<close>
  (\<open>Chunk i\<close>).  A run of the function is the list of the files it wrote, in the order of
  writing, and the exception that ended it, if any.
\<close>

datatype output_name = Whole | Chunk int

type_synonym 'r run = "(output_name \<times> 'r list list) list \<times> py_error option"

text \<open>The loop \<^verbatim>\<open>for i in range(num_chunks)\<close> (lines 55 to 61).\<close>

fun write_chunks :: "'r list \<Rightarrow> int \<Rightarrow> int \<Rightarrow> int list \<Rightarrow> 'r run" where
  "write_chunks table max_rows_per_file num_rows [] = ([], None)"
| "write_chunks table max_rows_per_file num_rows (i # is) =
     (let start = i * max_rows_per_file;
          stop = min ((i + 1) * max_rows_per_file) num_rows
      in case slice table start (stop - start) of
           Inl e \<Rightarrow> ([], Some e)
         | Inr chunk \<Rightarrow>
             (let rest = write_chunks table max_rows_per_file num_rows is
              in ((Chunk i, write_optimized_parquet chunk) # fst rest, snd rest)))"

text \<open>\<^verbatim>\<open>(num_rows + max_rows_per_file - 1) // max_rows_per_file\<close>, for a divisor that is not 0.\<close>

definition num_chunks :: "nat \<Rightarrow> int \<Rightarrow> int" where
  "num_chunks num_rows max_rows_per_file =
     (int num_rows + max_rows_per_file - 1) div max_rows_per_file"

text \<open>
  The body of \<^verbatim>\<open>optimize_parquet_file\<close> from line 44 on, given the result of
  \<^verbatim>\<open>sort_indices\<close>.  \<^verbatim>\<open>//\<close> is floor division, as \<open>div\<close> on \<open>int\<close>, and raises on a zero
  divisor.
\<close>

definition optimize_with_indices :: "'r list \<Rightarrow> nat list \<Rightarrow> int \<Rightarrow> 'r run" where
  "optimize_with_indices table sorted_indices max_rows_per_file =
     (let num_rows = int (length table)
      in case take_rows table sorted_indices of
           Inl e \<Rightarrow> ([], Some e)
         | Inr sorted_table \<Rightarrow>
             if num_rows > max_rows_per_file then
               if max_rows_per_file = 0 then ([], Some ZeroDivisionError)
               else
                 write_chunks sorted_table max_rows_per_file num_rows
                   (map int [0..<nat (num_chunks (length table) max_rows_per_file)])
             else ([(Whole, write_optimized_parquet sorted_table)], None))"

definition optimize_parquet_file :: "('k::linorder \<times> 'v) list \<Rightarrow> int \<Rightarrow> ('k \<times> 'v) run" where
  "optimize_parquet_file table max_rows_per_file =
     optimize_with_indices table (sort_indices table) max_rows_per_file"

subsection \<open>Runs of the optimizer against the contract of \<^verbatim>\<open>sort_indices\<close>\<close>

text \<open>
  What pyarrow promises of \<^verbatim>\<open>sort_indices\<close>: the result is a permutation of the row
  indices, ascending in the key, and rows with equal keys keep their order (the sort is
  stable).  A run of the optimizer may use any index vector that keeps this promise.
\<close>

definition before :: "(nat \<Rightarrow> 'k::linorder) \<Rightarrow> nat \<Rightarrow> nat \<Rightarrow> bool" where
  "before key i j \<longleftrightarrow> key i < key j \<or> (key i = key j \<and> i < j)"

definition stable_ascending :: "('k::linorder \<times> 'v) list \<Rightarrow> nat list \<Rightarrow> bool" where
  "stable_ascending table idx \<longleftrightarrow>
     sort idx = [0..<length table] \<and>
     sorted_wrt (before (\<lambda>i. origin (table ! i))) idx"

inductive optimizer_run :: "('k::linorder \<times> 'v) list \<Rightarrow> int \<Rightarrow> ('k \<times> 'v) run \<Rightarrow> bool" where
  run: "stable_ascending table idx \<Longrightarrow>
        optimizer_run table max_rows_per_file (optimize_with_indices table idx max_rows_per_file)"


text \<open>Tables for examples: three rows with string keys, and 100001 rows with integer keys.\<close>

definition abc_table :: "(string \<times> nat) list" where
  "abc_table = [(''b'', 1), (''a'', 2), (''c'', 3)]"

definition int_table :: "(int \<times> unit) list" where
  "int_table = replicate 100000 (9, ()) @ [(10, ())]"


section \<open>The metadata inspector: \<^verbatim>\<open>checkParquetMetadata.py\<close>\<close>

text \<open>
  The footer of a storage unit as \<^verbatim>\<open>check_parquet_file\<close> reads it: the row count, the row
  groups with their sizes and column chunks, and the column names of the schema.
\<close>

record column_chunk =
  col_name :: string
  is_stats_set :: bool
  bloom_filter_offset :: "int option"

record row_group_meta =
  num_rows :: nat
  total_byte_size :: nat
  total_compressed_size :: nat
  columns :: "column_chunk list"

record file_metadata =
  md_num_rows :: nat
  md_row_groups :: "row_group_meta list"
  md_schema :: "string list"

datatype file_state = Missing | Unreadable | Parquet file_metadata

text \<open>
  The loop over the row groups (lines 70 to 84): the state is \<^verbatim>\<open>total_rows\<close> and
  \<^verbatim>\<open>row_group_sizes\<close>; for row group 0 the compression ratio divides by its byte size.
\<close>

fun row_group_analysis ::
  "(nat \<times> row_group_meta) list \<Rightarrow> nat \<times> nat list \<Rightarrow> py_error + nat \<times> nat list" where
  "row_group_analysis [] acc = Inr acc"
| "row_group_analysis ((i, g) # rest) acc =
     (let acc' = (fst acc + num_rows g, snd acc @ [num_rows g])
      in if i = 0 \<and> total_byte_size g = 0 then Inl ZeroDivisionError
         else row_group_analysis rest acc')"

datatype size_advice = RowGroupsSmall | RowGroupsLarge | RowGroupsOptimal

record optimisations =
  avg_row_group_size :: real
  min_row_group_size :: nat
  max_row_group_size :: nat
  has_statistics :: bool
  columns_with_stats :: "string list"
  has_bloom_filters :: bool
  columns_with_bloom :: "string list"
  advice :: size_advice

text \<open>The body of the \<^verbatim>\<open>try\<close> from the row group analysis on (lines 69 to 168).\<close>

definition inspect_row_groups :: "file_metadata \<Rightarrow> py_error + optimisations" where
  "inspect_row_groups metadata =
     (case row_group_analysis
             (zip [0..<length (md_row_groups metadata)] (md_row_groups metadata)) (0, []) of
        Inl e \<Rightarrow> Inl e
      | Inr acc \<Rightarrow>
          (let row_group_sizes = snd acc
           in if length row_group_sizes = 0 then Inl ZeroDivisionError
              else
                (let avg = real (sum_list row_group_sizes) / real (length row_group_sizes)
                 in case md_row_groups metadata of
                      [] \<Rightarrow> Inl IndexError
                    | g0 # _ \<Rightarrow>
                        Inr \<lparr>avg_row_group_size = avg,
                             min_row_group_size = Min (set row_group_sizes),
                             max_row_group_size = Max (set row_group_sizes),
                             has_statistics = list_ex is_stats_set (columns g0),
                             columns_with_stats = map col_name (filter is_stats_set (columns g0)),
                             has_bloom_filters =
                               list_ex (\<lambda>c. bloom_filter_offset c \<noteq> None) (columns g0),
                             columns_with_bloom =
                               map col_name
                                 (filter (\<lambda>c. bloom_filter_offset c \<noteq> None) (columns g0)),
                             advice =
                               (if avg < 50000 then RowGroupsSmall
                                else if avg > 500000 then RowGroupsLarge
                                else RowGroupsOptimal)\<rparr>)))"

text \<open>
  What one call of \<^verbatim>\<open>check_parquet_file\<close> shows: the row count and the row group count it
  printed (lines 53 and 54, before the analysis), the analysis if it was completed, the
  exception that the handler of line 170 caught, and the returned boolean.
\<close>

record inspection =
  printed_num_rows :: "nat option"
  printed_num_row_groups :: "nat option"
  analysis :: "optimisations option"
  caught :: "py_error option"
  returned :: bool

definition check_parquet_file :: "file_state \<Rightarrow> inspection" where
  "check_parquet_file file =
     (case file of
        Missing \<Rightarrow>
          \<lparr>printed_num_rows = None, printed_num_row_groups = None, analysis = None,
           caught = None, returned = False\<rparr>
      | Unreadable \<Rightarrow>
          \<lparr>printed_num_rows = None, printed_num_row_groups = None, analysis = None,
           caught = Some OSError, returned = False\<rparr>
      | Parquet metadata \<Rightarrow>
          (case inspect_row_groups metadata of
             Inl e \<Rightarrow>
               \<lparr>printed_num_rows = Some (md_num_rows metadata),
                printed_num_row_groups = Some (length (md_row_groups metadata)),
                analysis = None, caught = Some e, returned = False\<rparr>
           | Inr r \<Rightarrow>
               \<lparr>printed_num_rows = Some (md_num_rows metadata),
                printed_num_row_groups = Some (length (md_row_groups metadata)),
                analysis = Some r, caught = None, returned = True\<rparr>))"


section \<open>The command line tools\<close>

text \<open>
  What the \<^verbatim>\<open>main\<close> functions see of the file system: whether a path exists, whether it
  is a directory, and the names in a directory.  \<^verbatim>\<open>glob("*.parquet")\<close> keeps the names that
  end in \<^verbatim>\<open>.parquet\<close>.  A process ends with an exit status, having handed some files to
  the function that processes one file; \<^verbatim>\<open>sys.exit(1)\<close> gives status 1 and returning from
  \<^verbatim>\<open>main\<close> gives status 0.
\<close>

datatype path_kind = NoSuchPath | RegularFile | Directory "string list"

record process =
  exit_status :: nat
  processed :: "string list"

definition ends_with :: "string \<Rightarrow> string \<Rightarrow> bool" where
  "ends_with suffix s \<longleftrightarrow>
     length suffix \<le> length s \<and> drop (length s - length suffix) s = suffix"

definition glob_parquet :: "string list \<Rightarrow> string list" where
  "glob_parquet names = filter (ends_with ''.parquet'') names"

text \<open>\<^verbatim>\<open>main\<close> of \<^verbatim>\<open>analyze_stats.py\<close> (lines 163 to 186).\<close>

definition analyze_stats_main :: "(string \<Rightarrow> path_kind) \<Rightarrow> string list \<Rightarrow> process" where
  "analyze_stats_main fs argv =
     (if length argv < 2 then \<lparr>exit_status = 1, processed = []\<rparr>
      else
        (let file_path = argv ! 1
         in case fs file_path of
              Directory names \<Rightarrow>
                (let parquet_files = glob_parquet names
                 in if parquet_files = [] then \<lparr>exit_status = 1, processed = []\<rparr>
                    else \<lparr>exit_status = 0, processed = [hd parquet_files]\<rparr>)
            | _ \<Rightarrow> \<lparr>exit_status = 0, processed = [file_path]\<rparr>))"

text \<open>\<^verbatim>\<open>main\<close> of \<^verbatim>\<open>checkParquetMetadata.py\<close> (lines 175 to 196).\<close>

definition check_metadata_main :: "(string \<Rightarrow> path_kind) \<Rightarrow> string list \<Rightarrow> process" where
  "check_metadata_main fs argv =
     (if length argv < 2 then \<lparr>exit_status = 1, processed = []\<rparr>
      else
        (let file_path = argv ! 1
         in case fs file_path of
              Directory names \<Rightarrow>
                (let parquet_files = glob_parquet names
                 in if parquet_files = [] then \<lparr>exit_status = 1, processed = []\<rparr>
                    else \<lparr>exit_status = 0, processed = [hd parquet_files]\<rparr>)
            | _ \<Rightarrow> \<lparr>exit_status = 0, processed = [file_path]\<rparr>))"

text \<open>
  \<^verbatim>\<open>main\<close> of \<^verbatim>\<open>optimizeParquet.py\<close> (lines 100 to 121), after \<^verbatim>\<open>argparse\<close> has produced
  \<^verbatim>\<open>input_dir\<close>: every file found is handed to \<^verbatim>\<open>optimize_parquet_file\<close> inside a
  \<^verbatim>\<open>try\<close>, so no exception leaves the loop, and \<^verbatim>\<open>main\<close> returns.
\<close>

definition optimize_main :: "(string \<Rightarrow> path_kind) \<Rightarrow> string \<Rightarrow> process" where
  "optimize_main fs input_dir =
     (case fs input_dir of
        NoSuchPath \<Rightarrow> \<lparr>exit_status = 1, processed = []\<rparr>
      | RegularFile \<Rightarrow> \<lparr>exit_status = 0, processed = []\<rparr>
      | Directory names \<Rightarrow> \<lparr>exit_status = 0, processed = sort (glob_parquet names)\<rparr>)"

text \<open>A storage unit without rows and without row groups.\<close>

definition empty_unit :: file_metadata where
  "empty_unit = \<lparr>md_num_rows = 0, md_row_groups = [], md_schema = [''origin'']\<rparr>"

text \<open>A directory that exists and holds nothing that matches.\<close>

definition empty_dir_fs :: "string \<Rightarrow> path_kind" where
  "empty_dir_fs p = (if p = ''input_data'' then Directory [''README.md''] else NoSuchPath)"



section \<open>The optimizer's output under the simulator\<close>

text \<open>
  The audit step: every file a run wrote is read back and scanned; the result is the
  overlap count of each file.
\<close>

definition overlaps_of_run ::
  "('k::linorder \<Rightarrow> string) \<Rightarrow> ('k \<times> 'v) run \<Rightarrow> int \<Rightarrow> nat list" where
  "overlaps_of_run str r max_row_groups =
     map (\<lambda>f. rep_overlaps (analyze_statistics str (read_metadata (snd f)) max_row_groups))
       (fst r)"

text \<open>
  Two row groups with statistics are ascending when the first ends no later than the
  second begins; \<open>scan_inv\<close> is the invariant of the scan at a string column.
\<close>

definition ascending :: "'k::linorder row_group \<Rightarrow> 'k row_group \<Rightarrow> bool" where
  "ascending a b =
     (case (rg_statistics a, rg_statistics b) of
        (Some sa, Some sb) \<Rightarrow> stat_max sa \<le> stat_min sb
      | _ \<Rightarrow> True)"

definition scan_inv :: "string scan \<Rightarrow> bool" where
  "scan_inv st \<longleftrightarrow>
     overlaps st = spec_overlaps (stats_list st) \<and>
     prev_max st = (if stats_list st = [] then None else Some (max_stat (last (stats_list st))))"


section \<open>Properties of the pruning simulator\<close>

lemmas simulator_defs =
  analyze_statistics_def scan_row_groups_def examined_def num_to_show_def
  scan_row_group_def scan_init_def with_stats_def no_stats_def simulate_query_def
  count_fetches_def count_stat_def classify_def analyse_sort_def display_def Let_def

subsection \<open>The fetch loop\<close>

lemma fold_count_stat:
  "fold (count_stat v) sl (d, s) =
     (d + length (filter (must_fetch v) sl), s + length (filter (\<lambda>x. \<not> must_fetch v x) sl))"
  by (induction sl arbitrary: d s) (simp_all add: count_stat_def must_fetch_def)

lemma count_fetches_eq:
  "count_fetches v sl =
     (length (filter (must_fetch v) sl), length (filter (\<lambda>s. \<not> must_fetch v s) sl))"
  by (simp add: count_fetches_def fold_count_stat)

lemma count_fetches_total: "fst (count_fetches v sl) + snd (count_fetches v sl) = length sl"
  by (simp add: count_fetches_eq sum_length_filter_compl)

subsection \<open>What the scan collects\<close>

lemma stats_list_scan_step:
  "stats_list (scan_row_group str ir st) = stats_list st @ List.map_filter stat_entry [ir]"
  by (simp add: scan_row_group_def stat_entry_def List.map_filter_def Let_def
      split: option.splits)

lemma stats_list_fold:
  "stats_list (fold (scan_row_group str) irs st) =
     stats_list st @ List.map_filter stat_entry irs"
proof (induction irs arbitrary: st)
  case Nil
  then show ?case by (simp add: List.map_filter_def)
next
  case (Cons ir irs)
  have "List.map_filter stat_entry (ir # irs) =
          List.map_filter stat_entry [ir] @ List.map_filter stat_entry irs"
    by (simp add: List.map_filter_def)
  then show ?case using Cons by (simp add: stats_list_scan_step)
qed

lemma rep_stats_eq:
  "rep_stats (analyze_statistics str rgs m) = List.map_filter stat_entry (examined m rgs)"
  by (simp add: analyze_statistics_def Let_def scan_row_groups_def stats_list_fold
      scan_init_def)

lemma rep_query_eq:
  "rep_query (analyze_statistics str rgs m) =
     simulate_query (rep_stats (analyze_statistics str rgs m))"
  by (simp add: analyze_statistics_def Let_def)


lemma simulate_query_SomeD:
  assumes "simulate_query sl = Some q"
  shows "sl \<noteq> []"
    and "would_download q = fst (count_fetches (test_value q) sl)"
    and "would_skip q = snd (count_fetches (test_value q) sl)"
    and "skip_percentage q = real (would_skip q) / real (length sl) * 100"
    and "verdict q = classify (skip_percentage q)"
  using assms by (auto simp: simulate_query_def Let_def split: if_splits)

subsection \<open>The fetch simulation on the examined partitions\<close>

lemma map_snd_examined: "map snd (examined m rgs) = take (num_to_show m rgs) rgs"
proof -
  have "num_to_show m rgs \<le> length rgs" by (simp add: num_to_show_def)
  then have "length [0..<num_to_show m rgs] = length (take (num_to_show m rgs) rgs)" by simp
  then show ?thesis unfolding examined_def by (rule map_snd_zip)
qed

lemma filter_stat_entry_within:
  "length (filter (must_fetch v) (List.map_filter stat_entry irs)) =
     length (filter (\<lambda>ir. within_bounds v (snd ir)) irs)"
  by (induction irs)
     (auto simp: List.map_filter_def stat_entry_def must_fetch_def within_bounds_def
        split: option.splits)

lemma filter_stat_entry_outside:
  "length (filter (\<lambda>s. \<not> must_fetch v s) (List.map_filter stat_entry irs)) =
     length (filter (\<lambda>ir. outside_bounds v (snd ir)) irs)"
  by (induction irs)
     (auto simp: List.map_filter_def stat_entry_def must_fetch_def outside_bounds_def
        split: option.splits)

lemma length_filter_snd_examined:
  "length (filter (\<lambda>ir. P (snd ir)) (examined m rgs)) =
     length (filter P (take (num_to_show m rgs) rgs))"
proof -
  have "filter P (map snd (examined m rgs)) = map snd (filter (\<lambda>ir. P (snd ir)) (examined m rgs))"
    by (simp add: filter_map comp_def)
  then show ?thesis by (metis length_map map_snd_examined)
qed

lemma count_fetches_examined:
  "count_fetches v (rep_stats (analyze_statistics str rgs m)) =
     (length (filter (within_bounds v) (take (num_to_show m rgs) rgs)),
      length (filter (outside_bounds v) (take (num_to_show m rgs) rgs)))"
  by (simp add: count_fetches_eq rep_stats_eq filter_stat_entry_within
      filter_stat_entry_outside length_filter_snd_examined)

lemma simulate_query_test_value:
  "simulate_query sl = Some q \<Longrightarrow> test_value q = min_stat (sl ! (length sl div 2))"
  by (auto simp: simulate_query_def Let_def split: if_splits)

lemma upt10: "[0..<10] = [0, 1, 2, 3, 4, 5, 6, 7, 8, 9::nat]"
  by (simp add: upt_rec)

lemma twelve_stats:
  "rep_stats (analyze_statistics str_str twelve_row_groups 10) =
     map (\<lambda>i. \<lparr>rg = i, min_stat = ''a'', max_stat = ''a'', rows = 5\<rparr>)
       [0, 1, 2, 3, 4, 5, 6, 7, 8, 9]"
  by (simp add: rep_stats_eq examined_def num_to_show_def twelve_row_groups_def with_stats_def
      List.map_filter_def stat_entry_def upt10)

text \<open>
  Claim C2, as stated, fails beyond the first \<^verbatim>\<open>max_row_groups\<close> row groups.  Twelve
  partitions carry statistics and all have \<open>a\<close> within their bounds; the simulation for \<open>a\<close>
  counts 10 of them as fetched and none as skipped, and the last two are counted neither
  way.
\<close>

theorem beyond_max_row_groups_counterexample:
  "rep_query (analyze_statistics str_str twelve_row_groups 10)
     = Some \<lparr>test_value = ''a'', would_download = 10, would_skip = 0,
              skip_percentage = 0, verdict = Poor\<rparr>
   \<and> length (filter (within_bounds ''a'') twelve_row_groups) = 12"
proof -
  have "simulate_query (map (\<lambda>i. \<lparr>rg = i, min_stat = ''a'', max_stat = ''a'', rows = 5\<rparr>)
          [0, 1, 2, 3, 4, 5, 6, 7, 8, 9])
      = Some \<lparr>test_value = ''a'', would_download = 10, would_skip = 0,
              skip_percentage = 0, verdict = Poor\<rparr>"
    by (simp add: simulate_query_def count_fetches_eq must_fetch_def classify_def)
  then have "rep_query (analyze_statistics str_str twelve_row_groups 10)
     = Some \<lparr>test_value = ''a'', would_download = 10, would_skip = 0,
              skip_percentage = 0, verdict = Poor\<rparr>"
    by (simp only: rep_query_eq twelve_stats)
  moreover have "length (filter (within_bounds ''a'') twelve_row_groups) = 12"
    by (simp add: twelve_row_groups_def within_bounds_def with_stats_def)
  ultimately show ?thesis by (rule conjI)
qed

text \<open>
  Claim C2, amended.  In the fetch simulation, for every lookup value \<open>v\<close> and every examined
  partition (one of the first \<^verbatim>\<open>min(max_row_groups, num_row_groups)\<close> row groups) that
  carries statistics, the partition is counted as fetched if and only if \<open>min \<le> v \<le> max\<close>,
  both bounds inclusive, in the natural order of the column, and as skipped otherwise:
  this is what the loop counts over the \<^verbatim>\<open>stats_list\<close> of the analysis for every \<open>v\<close>, and
  what the simulation reports for the value it tests, the minimum of the middle entry of
  \<^verbatim>\<open>stats_list\<close>.
\<close>

theorem examined_fetched_iff_within_bounds:
  assumes "rep_query (analyze_statistics str rgs m) = Some q"
  shows "(\<forall>v. count_fetches v (rep_stats (analyze_statistics str rgs m)) =
            (length (filter (within_bounds v) (take (num_to_show m rgs) rgs)),
             length (filter (outside_bounds v) (take (num_to_show m rgs) rgs)))) \<and>
         test_value q =
           min_stat (rep_stats (analyze_statistics str rgs m) !
                       (length (rep_stats (analyze_statistics str rgs m)) div 2)) \<and>
         would_download q =
           length (filter (within_bounds (test_value q)) (take (num_to_show m rgs) rgs)) \<and>
         would_skip q =
           length (filter (outside_bounds (test_value q)) (take (num_to_show m rgs) rgs))"
proof -
  let ?sl = "rep_stats (analyze_statistics str rgs m)"
  from assms have q: "simulate_query ?sl = Some q"
    by (simp add: rep_query_eq)
  have "would_download q = fst (count_fetches (test_value q) ?sl)"
    and "would_skip q = snd (count_fetches (test_value q) ?sl)"
    using simulate_query_SomeD[OF q] by simp_all
  then show ?thesis
    using simulate_query_test_value[OF q] by (simp add: count_fetches_examined)
qed

theorem examined_fetched_iff_within_bounds_witness:
  "rep_query (analyze_statistics str_str mixed_row_groups 10)
     = Some \<lparr>test_value = ''b'', would_download = 1, would_skip = 2,
              skip_percentage = 200 / 3, verdict = Acceptable\<rparr>
   \<and> would_download \<lparr>test_value = ''b'', would_download = 1, would_skip = 2,
              skip_percentage = 200 / 3, verdict = Acceptable\<rparr> =
       length (filter (within_bounds ''b'')
         (take (num_to_show 10 mixed_row_groups) mixed_row_groups))
   \<and> would_skip \<lparr>test_value = ''b'', would_download = 1, would_skip = 2,
              skip_percentage = 200 / 3, verdict = Acceptable\<rparr> =
       length (filter (outside_bounds ''b'')
         (take (num_to_show 10 mixed_row_groups) mixed_row_groups))"
proof -
  have h: "rep_query (analyze_statistics str_str mixed_row_groups 10)
     = Some \<lparr>test_value = ''b'', would_download = 1, would_skip = 2,
              skip_percentage = 200 / 3, verdict = Acceptable\<rparr>"
    by (simp add: simulator_defs str_str_def upt_rec mixed_row_groups_def)
  note t = examined_fetched_iff_within_bounds[OF h]
  have tv: "test_value \<lparr>test_value = ''b'', would_download = 1, would_skip = 2,
              skip_percentage = 200 / 3, verdict = Acceptable\<rparr> = ''b''"
    by simp
  show ?thesis using h t unfolding tv by blast
qed

subsection \<open>Partitions without statistics\<close>








subsection \<open>Overlap detection\<close>

text \<open>
  Claim C4 at an integer column.  The partitions \<open>[9, 9]\<close> and \<open>[10, 10]\<close> lie in ascending
  order and do not overlap in the order of the integers (\<open>9 \<le> 10\<close>), but the scan compares
  the strings \<^verbatim>\<open>str(min)\<close> and \<^verbatim>\<open>str(max)\<close>, and \<open>''10'' < ''9''\<close>: it counts one overlap
  and reports an overlap percentage of 100.  In the opposite physical order, \<open>[10, 10]\<close>
  before \<open>[9, 9]\<close>, the partitions do overlap (\<open>10 > 9\<close>) and the scan counts none.
\<close>

theorem overlap_by_string_order:
  "rep_overlaps (analyze_statistics str_int [with_stats 9 9 5, with_stats 10 10 5] 10) = 1 \<and>
   rep_sort (analyze_statistics str_int [with_stats 9 9 5, with_stats 10 10 5] 10)
     = Some (PartiallySorted 1 1 100) \<and>
   spec_overlaps (rep_stats (analyze_statistics str_int
      [with_stats 9 9 5, with_stats 10 10 5] 10)) = 0 \<and>
   rep_overlaps (analyze_statistics str_int [with_stats 10 10 5, with_stats 9 9 5] 10) = 0 \<and>
   rep_sort (analyze_statistics str_int [with_stats 10 10 5, with_stats 9 9 5] 10)
     = Some PerfectlySorted \<and>
   spec_overlaps (rep_stats (analyze_statistics str_int
      [with_stats 10 10 5, with_stats 9 9 5] 10)) = 1"
  by (simp add: simulator_defs str_int_def digit_char_def upt_rec)

subsection \<open>Classification\<close>

text \<open>
  Claim C7, as stated, fails at a skip ratio of exactly 50 percent: of two partitions one
  is skipped, and the verdict is \<open>Poor\<close>, not \<open>Acceptable\<close>.
\<close>

theorem half_skipped_is_poor:
  "rep_query (analyze_statistics str_str
      [with_stats ''a'' ''a'' 5, with_stats ''b'' ''b'' 5] 10)
     = Some \<lparr>test_value = ''b'', would_download = 1, would_skip = 1,
              skip_percentage = 50, verdict = Poor\<rparr>"
  by (simp add: simulator_defs str_str_def upt_rec)

text \<open>
  Claim C7, amended.  The skip percentage is 100 times skipped over fetched plus skipped;
  the verdict is \<open>Optimal\<close> exactly when it is above 80, \<open>Acceptable\<close> exactly when it is
  above 50 and at most 80, and \<open>Poor\<close> exactly when it is at most 50 (50 included).
\<close>

theorem classification_thresholds:
  assumes "rep_query (analyze_statistics str rgs m) = Some q"
  shows "skip_percentage q =
           real (would_skip q) / real (would_download q + would_skip q) * 100 \<and>
         (verdict q = Optimal \<longleftrightarrow> skip_percentage q > 80) \<and>
         (verdict q = Acceptable \<longleftrightarrow> 50 < skip_percentage q \<and> skip_percentage q \<le> 80) \<and>
         (verdict q = Poor \<longleftrightarrow> skip_percentage q \<le> 50)"
proof -
  let ?sl = "rep_stats (analyze_statistics str rgs m)"
  from assms have q: "simulate_query ?sl = Some q"
    by (simp add: rep_query_eq)
  note f = simulate_query_SomeD[OF q]
  have tot: "would_download q + would_skip q = length ?sl"
    using f(2,3) count_fetches_total[of "test_value q" ?sl] by simp
  have "skip_percentage q = real (would_skip q) / real (would_download q + would_skip q) * 100"
    using f(4) tot by simp
  moreover have "verdict q = Optimal \<longleftrightarrow> skip_percentage q > 80"
    using f(5) by (simp add: classify_def)
  moreover have "verdict q = Acceptable \<longleftrightarrow> 50 < skip_percentage q \<and> skip_percentage q \<le> 80"
    using f(5) by (auto simp add: classify_def)
  moreover have "verdict q = Poor \<longleftrightarrow> skip_percentage q \<le> 50"
    using f(5) by (auto simp add: classify_def)
  ultimately show ?thesis by blast
qed

theorem classification_thresholds_witness:
  "rep_query (analyze_statistics str_str
      [with_stats ''a'' ''a'' 5, with_stats ''b'' ''c'' 5, with_stats ''d'' ''d'' 5] 10)
     = Some \<lparr>test_value = ''b'', would_download = 1, would_skip = 2,
              skip_percentage = 200 / 3, verdict = Acceptable\<rparr>
   \<and> (50::real) < 200 / 3 \<and> (200::real) / 3 \<le> 80"
proof -
  have h: "rep_query (analyze_statistics str_str
      [with_stats ''a'' ''a'' 5, with_stats ''b'' ''c'' 5, with_stats ''d'' ''d'' 5] 10)
     = Some \<lparr>test_value = ''b'', would_download = 1, would_skip = 2,
              skip_percentage = 200 / 3, verdict = Acceptable\<rparr>"
    by (simp add: simulator_defs str_str_def upt_rec)
  show ?thesis using h classification_thresholds[OF h] by simp
qed

text \<open>
  At a string column \<^verbatim>\<open>str\<close> changes nothing, and the scan counts exactly the adjacent pairs
  of \<^verbatim>\<open>stats_list\<close> with \<open>max i > min (i + 1)\<close> in the order of the column.
\<close>

lemma spec_overlaps_snoc:
  "spec_overlaps (sl @ [a]) =
     spec_overlaps sl + (if sl \<noteq> [] \<and> max_stat (last sl) > min_stat a then 1 else 0)"
  by (induction sl rule: spec_overlaps.induct) simp_all

lemma scan_inv_step: "scan_inv st \<Longrightarrow> scan_inv (scan_row_group str_str ir st)"
  by (cases "rg_statistics (snd ir)")
     (auto simp: scan_inv_def scan_row_group_def Let_def str_str_def spec_overlaps_snoc)

lemma scan_inv_fold: "scan_inv st \<Longrightarrow> scan_inv (fold (scan_row_group str_str) irs st)"
  by (induction irs arbitrary: st) (simp_all add: scan_inv_step)

lemma string_overlaps_natural:
  "rep_overlaps (analyze_statistics str_str rgs m) =
     spec_overlaps (rep_stats (analyze_statistics str_str rgs m))"
proof -
  have "scan_inv scan_init" by (simp add: scan_inv_def scan_init_def)
  then have "scan_inv (scan_row_groups str_str m rgs)"
    unfolding scan_row_groups_def by (rule scan_inv_fold)
  then show ?thesis by (simp add: analyze_statistics_def Let_def scan_inv_def)
qed


section \<open>Properties of the layout optimizer\<close>

subsection \<open>The sort\<close>

lemma insort_key_map:
  "insort_key f (g x) (map g xs) = map g (insort_key (\<lambda>y. f (g y)) x xs)"
  by (induction xs) simp_all

lemma sort_key_map: "sort_key f (map g xs) = map g (sort_key (\<lambda>y. f (g y)) xs)"
  by (induction xs) (simp_all add: insort_key_map)

lemma take_rows_sort_indices:
  "take_rows table (sort_indices table) = Inr (sort_key origin table)"
proof -
  have "list_all (\<lambda>i. i < length table) (sort_indices table)"
    by (simp add: sort_indices_def list_all_iff)
  moreover have "map (\<lambda>i. table ! i) (sort_indices table) = sort_key origin table"
    using sort_key_map[of origin "\<lambda>i. table ! i" "[0..<length table]"]
    by (simp add: sort_indices_def map_nth)
  ultimately show ?thesis by (simp add: take_rows_def)
qed


lemma sorted_wrt_insort_key_before:
  "sorted_wrt (before f) ys \<Longrightarrow> \<forall>y\<in>set ys. x < y \<Longrightarrow> sorted_wrt (before f) (insort_key f x ys)"
proof (induction ys)
  case Nil
  then show ?case by simp
next
  case (Cons y ys)
  show ?case
  proof (cases "f x \<le> f y")
    case True
    have "before f x z" if "z \<in> set (y # ys)" for z
    proof -
      have "f y \<le> f z" using that Cons.prems(1) by (auto simp: before_def)
      moreover have "x < z" using that Cons.prems(2) by auto
      ultimately show ?thesis using True by (auto simp: before_def)
    qed
    then show ?thesis using True Cons.prems(1) by auto
  next
    case False
    then have "before f y x" by (auto simp: before_def not_le)
    moreover have "sorted_wrt (before f) (insort_key f x ys)"
      using Cons by simp
    ultimately show ?thesis using False Cons.prems(1) by (auto simp: set_insort_key)
  qed
qed

lemma sorted_wrt_sort_key_before:
  "sorted_wrt (<) xs \<Longrightarrow> sorted_wrt (before f) (sort_key f xs)"
proof (induction xs)
  case Nil
  then show ?case by simp
next
  case (Cons x xs)
  then show ?case by (simp add: sorted_wrt_insort_key_before)
qed

lemma sort_sort_key: "sort (sort_key f xs) = sort xs"
  by (rule properties_for_sort) simp_all

lemma stable_ascending_sort_indices: "stable_ascending table (sort_indices table)"
proof -
  have "sort (sort_indices table) = [0..<length table]"
    by (simp add: sort_indices_def sort_sort_key sorted_sort_id)
  moreover have "sorted_wrt (before (\<lambda>i. origin (table ! i))) (sort_indices table)"
    unfolding sort_indices_def by (rule sorted_wrt_sort_key_before) (simp add: sorted_wrt_upt)
  ultimately show ?thesis by (simp add: stable_ascending_def)
qed

lemma stable_ascending_unique:
  assumes "stable_ascending table idx"
  shows "idx = sort_indices table"
proof -
  let ?f = "\<lambda>i. origin (table ! i)"
  have s: "sort idx = [0..<length table]" and w: "sorted_wrt (before ?f) idx"
    using assms by (simp_all add: stable_ascending_def)
  have m: "mset idx = mset [0..<length table]"
    using s by (metis mset_sort)
  have d: "distinct idx" using m by (metis distinct_upt mset_eq_imp_distinct_iff)
  have "sorted_wrt (\<lambda>i j. ?f i \<le> ?f j) idx"
    by (rule sorted_wrt_mono_rel[OF _ w]) (auto simp: before_def)
  then have "sorted (map ?f idx)"
    by (simp add: sorted_map)
  moreover have "filter (\<lambda>x. ?f k = ?f x) idx = filter (\<lambda>x. ?f k = ?f x) [0..<length table]" for k
  proof (rule sorted_distinct_set_unique)
    have "sorted_wrt (before ?f) (filter (\<lambda>x. ?f k = ?f x) idx)"
      using w by (rule sorted_wrt_filter)
    then have "sorted_wrt (<) (filter (\<lambda>x. ?f k = ?f x) idx)"
      by (rule sorted_wrt_mono_rel[rotated]) (auto simp: before_def)
    then show "sorted (filter (\<lambda>x. ?f k = ?f x) idx)"
      using strict_sorted_iff by blast
    show "distinct (filter (\<lambda>x. ?f k = ?f x) idx)" using d by simp
    show "sorted (filter (\<lambda>x. ?f k = ?f x) [0..<length table])" by (simp add: sorted_wrt_filter)
    show "distinct (filter (\<lambda>x. ?f k = ?f x) [0..<length table])" by simp
    show "set (filter (\<lambda>x. ?f k = ?f x) idx) = set (filter (\<lambda>x. ?f k = ?f x) [0..<length table])"
      using m by (metis set_filter mset_eq_setD)
  qed
  ultimately have "sort_key ?f [0..<length table] = idx"
    using m by (intro properties_for_sort_key) simp_all
  then show ?thesis by (simp add: sort_indices_def)
qed

lemma optimizer_run_total: "optimizer_run table c (optimize_parquet_file table c)"
  unfolding optimize_parquet_file_def by (rule optimizer_run.run) (rule stable_ascending_sort_indices)

text \<open>
  Claim C5.  Two runs of the optimizer on the same table with the same row cap write the
  same files with the same rows in the same row groups and end the same way: the promise
  of a stable ascending sort leaves \<^verbatim>\<open>sort_indices\<close> one possible result, and the chunk
  boundaries are computed from the row count and the cap alone.
\<close>

theorem optimizer_run_deterministic:
  assumes "optimizer_run table c out1" and "optimizer_run table c out2"
  shows "out1 = out2"
  using assms by (auto elim!: optimizer_run.cases dest!: stable_ascending_unique)

theorem optimizer_run_deterministic_witness:
  "optimizer_run abc_table 2 (optimize_with_indices abc_table [1, 0, 2] 2) \<and>
   optimizer_run abc_table 2 (optimize_parquet_file abc_table 2) \<and>
   optimize_with_indices abc_table [1, 0, 2] 2 = optimize_parquet_file abc_table 2"
proof -
  have "stable_ascending abc_table [1, 0, 2]"
    by (simp add: stable_ascending_def before_def abc_table_def origin_def upt_rec)
  then have r1: "optimizer_run abc_table 2 (optimize_with_indices abc_table [1, 0, 2] 2)"
    by (rule optimizer_run.run)
  have r2: "optimizer_run abc_table 2 (optimize_parquet_file abc_table 2)"
    unfolding optimize_parquet_file_def
    by (rule optimizer_run.run) (rule stable_ascending_sort_indices)
  show ?thesis using r1 r2 optimizer_run_deterministic[OF r1 r2] by simp
qed

subsection \<open>Row groups and chunks\<close>


lemma concat_split_rows: "0 < sz \<Longrightarrow> concat (split_rows sz table) = table"
proof (induction sz table rule: split_rows.induct)
  case (1 sz table)
  show ?case
  proof (cases "table = []")
    case True
    then show ?thesis by (simp add: split_rows.simps)
  next
    case False
    then have "concat (split_rows sz table) =
                 take sz table @ concat (split_rows sz (drop sz table))"
      using "1.prems" by (subst split_rows.simps) simp
    then show ?thesis using "1.IH" "1.prems" False by simp
  qed
qed

lemma file_rows_write_optimized_parquet: "file_rows (write_optimized_parquet table) = table"
  by (simp add: file_rows_def write_optimized_parquet_def write_table_def row_group_size_def
      concat_split_rows)

lemma slice_chunk:
  assumes "0 < c"
  shows "slice table (int i * c) (min ((int i + 1) * c) (int (length table)) - int i * c) =
           Inr (take (nat c) (drop (i * nat c) table))"
proof -
  have off: "nat (int i * c) = i * nat c"
    using assms by (simp add: nat_mult_distrib)
  have nn: "\<not> int i * c < 0" using assms by (simp add: not_less)
  have "take (nat (min ((int i + 1) * c) (int (length table)) - int i * c))
          (drop (i * nat c) table)
      = take (nat c) (drop (i * nat c) table)"
  proof (cases "(int i + 1) * c \<le> int (length table)")
    case True
    then have "min ((int i + 1) * c) (int (length table)) - int i * c = c"
      by (simp add: algebra_simps)
    then show ?thesis by simp
  next
    case False
    then have m: "min ((int i + 1) * c) (int (length table)) = int (length table)" by simp
    have l: "length (drop (i * nat c) table) = nat (int (length table) - int i * c)"
      using assms by (simp add: nat_diff_distrib' nat_mult_distrib)
    have "int (length table) - int i * c \<le> c"
      using False by (simp add: algebra_simps)
    then have "nat (int (length table) - int i * c) \<le> nat c" by simp
    then show ?thesis using l m by simp
  qed
  then show ?thesis using nn by (simp add: slice_def off)
qed

lemma write_chunks_pos:
  assumes "0 < c"
  shows "write_chunks table c (int (length table)) (map int is) =
           (map (\<lambda>i. (Chunk (int i),
                      write_optimized_parquet (take (nat c) (drop (i * nat c) table)))) is,
            None)"
proof (induction "is")
  case Nil
  then show ?case by simp
next
  case (Cons i "is")
  show ?case
    using Cons slice_chunk[OF assms, of table i] by (simp add: Let_def)
qed

lemma concat_take_drop:
  "concat (map (\<lambda>i. take c (drop (i * c) xs)) [0..<k]) = take (k * c) xs"
proof (induction k)
  case 0
  then show ?case by simp
next
  case (Suc k)
  have "take (k * c) xs @ take c (drop (k * c) xs) = take (k * c + c) xs"
    by (simp add: take_add)
  then show ?case using Suc by (simp add: add.commute)
qed

lemma num_chunks_bounds:
  assumes "0 < c"
  shows "(num_chunks n c - 1) * c < int n" and "int n \<le> num_chunks n c * c"
proof -
  let ?k = "num_chunks n c"
  have e: "?k * c + (int n + c - 1) mod c = int n + c - 1"
    unfolding num_chunks_def by (rule div_mult_mod_eq)
  have lo: "0 \<le> (int n + c - 1) mod c" and hi: "(int n + c - 1) mod c < c"
    using assms by simp_all
  have d: "(?k - 1) * c = ?k * c - c" by (simp add: algebra_simps)
  show "(?k - 1) * c < int n" using e lo hi d by linarith
  show "int n \<le> ?k * c" using e lo hi by linarith
qed

lemma num_chunks_ceiling:
  assumes "0 < c"
  shows "num_chunks n c = \<lceil>real n / real_of_int c\<rceil>"
proof (rule ceiling_unique[symmetric])
  have c: "0 < real_of_int c" using assms by simp
  have "real_of_int ((num_chunks n c - 1) * c) < real_of_int (int n)"
    using num_chunks_bounds(1)[OF assms, of n] by (simp only: of_int_less_iff)
  then have "(real_of_int (num_chunks n c) - 1) * real_of_int c < real n" by simp
  then show "real_of_int (num_chunks n c) - 1 < real n / real_of_int c"
    using c by (simp add: pos_less_divide_eq)
  have "real_of_int (int n) \<le> real_of_int (num_chunks n c * c)"
    using num_chunks_bounds(2)[OF assms, of n] by (simp only: of_int_le_iff)
  then have "real n \<le> real_of_int (num_chunks n c) * real_of_int c" by simp
  then show "real n / real_of_int c \<le> real_of_int (num_chunks n c)"
    using c by (simp add: pos_divide_le_eq)
qed

lemma num_chunks_nonneg: "0 < c \<Longrightarrow> 0 \<le> num_chunks n c"
  by (simp add: num_chunks_def pos_imp_zdiv_nonneg_iff)

text \<open>With a positive cap below the row count, the run writes these chunks and ends normally.\<close>

lemma optimize_parquet_file_split:
  assumes "0 < c" and "c < int (length table)"
  shows "optimize_parquet_file table c =
           (map (\<lambda>i. (Chunk (int i),
                      write_optimized_parquet
                        (take (nat c) (drop (i * nat c) (sort_key origin table)))))
              [0..<nat (num_chunks (length table) c)],
            None)"
proof -
  have "write_chunks (sort_key origin table) c (int (length (sort_key origin table)))
          (map int [0..<nat (num_chunks (length table) c)]) =
        (map (\<lambda>i. (Chunk (int i),
                      write_optimized_parquet
                        (take (nat c) (drop (i * nat c) (sort_key origin table)))))
              [0..<nat (num_chunks (length table) c)],
            None)"
    by (rule write_chunks_pos[OF assms(1)])
  then show ?thesis
    using assms
    by (simp add: optimize_parquet_file_def optimize_with_indices_def take_rows_sort_indices)
qed

lemma chunks_cover:
  assumes "0 < c"
  shows "length xs \<le> nat (num_chunks (length xs) c) * nat c"
proof -
  have "int (length xs) \<le> num_chunks (length xs) c * c"
    by (rule num_chunks_bounds(2)[OF assms])
  also have "\<dots> = int (nat (num_chunks (length xs) c) * nat c)"
    using assms num_chunks_nonneg[OF assms, of "length xs"] by simp
  finally show ?thesis by (simp only: of_nat_le_iff)
qed

lemma chunk_start_in_range:
  assumes "0 < c" and "i < nat (num_chunks n c)"
  shows "i * nat c < n"
proof -
  have "int i \<le> num_chunks n c - 1" using assms(2) by simp
  then have "int i * c \<le> (num_chunks n c - 1) * c"
    using assms(1) by (simp add: mult_right_mono)
  also have "\<dots> < int n" by (rule num_chunks_bounds(1)[OF assms(1)])
  finally have "int (i * nat c) < int n" using assms(1) by simp
  then show ?thesis by (simp only: of_nat_less_iff)
qed

lemma abc_eval: "optimize_parquet_file abc_table 2 =
     ([(Chunk 0, [[(''a'', 2), (''b'', 1)]]), (Chunk 1, [[(''c'', 3)]])], None)"
  by (simp add: optimize_parquet_file_split abc_table_def num_chunks_def origin_def
        upt_rec write_optimized_parquet_def write_table_def row_group_size_def split_rows.simps)

lemma take_drop_range:
  "take c (drop a xs) = map (\<lambda>j. xs ! j) [a ..< min (a + c) (length xs)]"
  by (rule nth_equalityI) (auto simp: nth_map_upt)

lemma take_drop_upt: "take c (drop a [0..<n]) = [a ..< min (a + c) n]"
  by (rule nth_equalityI) auto

subsection \<open>Splitting into chunks\<close>

text \<open>
  Claim C6, as stated, fails for a row cap of 0: the three rows exceed the cap, the
  division by the cap raises, and no output file is written.
\<close>

theorem zero_cap_counterexample:
  "(0::int) < int (length abc_table) \<and>
   optimize_parquet_file abc_table 0 = ([], Some ZeroDivisionError)"
  by (simp add: optimize_parquet_file_def optimize_with_indices_def take_rows_sort_indices abc_table_def)

text \<open>
  Claim C6, amended.  For every positive row cap and every table with more rows than the
  cap, the run ends normally, the files are named by the chunk indices 0, 1, ... in the
  order of writing, and the rows of the files concatenated in that order are the stably
  sorted rows of the input: no row is dropped, duplicated or moved, and the row counts of
  the files add up to the row count of the input.
\<close>

theorem chunks_concat_sorted:
  assumes "0 < c" and "c < int (length table)"
  shows "snd (optimize_parquet_file table c) = None \<and>
         map fst (fst (optimize_parquet_file table c)) =
           map (\<lambda>i. Chunk (int i)) [0..<length (fst (optimize_parquet_file table c))] \<and>
         concat (map (\<lambda>f. file_rows (snd f)) (fst (optimize_parquet_file table c))) =
           sort_key origin table \<and>
         mset (concat (map (\<lambda>f. file_rows (snd f)) (fst (optimize_parquet_file table c)))) =
           mset table \<and>
         sum_list (map (\<lambda>f. length (file_rows (snd f))) (fst (optimize_parquet_file table c))) =
           length table"
proof -
  let ?s = "sort_key origin table"
  let ?k = "nat (num_chunks (length table) c)"
  note e = optimize_parquet_file_split[OF assms]
  have rows: "map (\<lambda>f. file_rows (snd f)) (fst (optimize_parquet_file table c)) =
          map (\<lambda>i. take (nat c) (drop (i * nat c) ?s)) [0..<?k]"
    by (simp add: e file_rows_write_optimized_parquet comp_def)
  have "length ?s \<le> ?k * nat c"
    using chunks_cover[OF assms(1), of ?s] by simp
  then have cat: "concat (map (\<lambda>f. file_rows (snd f)) (fst (optimize_parquet_file table c))) = ?s"
    by (simp add: rows concat_take_drop)
  have "sum_list (map (\<lambda>f. length (file_rows (snd f))) (fst (optimize_parquet_file table c))) =
          length (concat (map (\<lambda>f. file_rows (snd f)) (fst (optimize_parquet_file table c))))"
    by (simp add: length_concat comp_def)
  then have len: "sum_list (map (\<lambda>f. length (file_rows (snd f))) (fst (optimize_parquet_file table c))) =
          length table"
    by (simp add: cat)
  have "snd (optimize_parquet_file table c) = None" by (simp add: e)
  moreover have "map fst (fst (optimize_parquet_file table c)) =
           map (\<lambda>i. Chunk (int i)) [0..<length (fst (optimize_parquet_file table c))]"
    by (simp add: e comp_def)
  ultimately show ?thesis using cat len by simp
qed

theorem chunks_concat_sorted_witness:
  "(0::int) < 2 \<and> 2 < int (length abc_table) \<and>
   optimize_parquet_file abc_table 2 =
     ([(Chunk 0, [[(''a'', 2), (''b'', 1)]]), (Chunk 1, [[(''c'', 3)]])], None) \<and>
   concat (map (\<lambda>f. file_rows (snd f)) (fst (optimize_parquet_file abc_table 2))) =
     sort_key origin abc_table"
proof -
  have h1: "(0::int) < 2" by simp
  have h2: "2 < int (length abc_table)" by (simp add: abc_table_def)
  note e = abc_eval
  show ?thesis using h1 h2 e chunks_concat_sorted[OF h1 h2] by blast
qed

text \<open>
  Claim C10, as stated, fails for a negative row cap: the three rows exceed the cap
  \<open>- 1\<close>, the chunk count is \<open>(3 - 1 - 1) // - 1 = - 1\<close>, the loop does not run, and no chunk is
  written, so the chunks do not cover the rows.
\<close>

theorem negative_cap_counterexample:
  "(- 1::int) < int (length abc_table) \<and>
   optimize_parquet_file abc_table (- 1) = ([], None)"
  by (simp add: optimize_parquet_file_def optimize_with_indices_def take_rows_sort_indices abc_table_def num_chunks_def)

text \<open>
  Claim C10, amended.  For every positive row cap \<open>c\<close> and every table of \<open>n > c\<close> rows, the
  optimizer writes exactly \<open>\<lceil>n / c\<rceil>\<close> chunks; chunk \<open>i\<close> holds the rows of the sorted table at
  the positions from \<open>i * c\<close> up to \<open>min ((i + 1) * c) n\<close>, is not empty and has at most \<open>c\<close>
  rows; and these ranges of positions, one after the other, are the positions \<open>0\<close> to \<open>n\<close>,
  each once.
\<close>

theorem chunk_layout:
  assumes "0 < c" and "c < int (length table)"
  shows "int (length (fst (optimize_parquet_file table c))) =
           \<lceil>real (length table) / real_of_int c\<rceil> \<and>
         (\<forall>i < length (fst (optimize_parquet_file table c)).
            fst (fst (optimize_parquet_file table c) ! i) = Chunk (int i) \<and>
            file_rows (snd (fst (optimize_parquet_file table c) ! i)) =
              map (\<lambda>j. sort_key origin table ! j)
                [i * nat c ..< min ((i + 1) * nat c) (length table)] \<and>
            file_rows (snd (fst (optimize_parquet_file table c) ! i)) \<noteq> [] \<and>
            length (file_rows (snd (fst (optimize_parquet_file table c) ! i))) \<le> nat c) \<and>
         concat (map (\<lambda>i. [i * nat c ..< min ((i + 1) * nat c) (length table)])
                   [0..<length (fst (optimize_parquet_file table c))]) =
           [0..<length table]"
proof -
  let ?s = "sort_key origin table"
  let ?n = "length table"
  let ?k = "nat (num_chunks ?n c)"
  let ?fs = "fst (optimize_parquet_file table c)"
  note e = optimize_parquet_file_split[OF assms]
  have len: "length ?fs = ?k" by (simp add: e)
  have count: "int (length ?fs) = \<lceil>real ?n / real_of_int c\<rceil>"
    using num_chunks_ceiling[OF assms(1), of ?n] num_chunks_nonneg[OF assms(1), of ?n]
    by (simp add: len)
  have range: "take (nat c) (drop (i * nat c) xs) =
                 map (\<lambda>j. xs ! j) [i * nat c ..< min ((i + 1) * nat c) (length xs)]"
    for i and xs :: "'c list"
    using take_drop_range[of "nat c" "i * nat c" xs] by (simp add: add.commute)
  have each: "fst (?fs ! i) = Chunk (int i) \<and>
            file_rows (snd (?fs ! i)) =
              map (\<lambda>j. ?s ! j) [i * nat c ..< min ((i + 1) * nat c) ?n] \<and>
            file_rows (snd (?fs ! i)) \<noteq> [] \<and>
            length (file_rows (snd (?fs ! i))) \<le> nat c" if "i < length ?fs" for i
  proof -
    have i: "i < ?k" using that len by simp
    have f: "?fs ! i = (Chunk (int i), write_optimized_parquet (take (nat c) (drop (i * nat c) ?s)))"
      using i by (simp add: e)
    have r: "file_rows (snd (?fs ! i)) = take (nat c) (drop (i * nat c) ?s)"
      by (simp add: f file_rows_write_optimized_parquet)
    have "i * nat c < length ?s"
      using chunk_start_in_range[OF assms(1) i] by simp
    then have "take (nat c) (drop (i * nat c) ?s) \<noteq> []"
      using assms(1) by simp
    then show ?thesis using r f range[of i ?s] by simp
  qed
  have "(\<lambda>i. [i * nat c ..< min ((i + 1) * nat c) ?n]) =
          (\<lambda>i. take (nat c) (drop (i * nat c) [0..<?n]))"
  proof (rule ext)
    fix i
    show "[i * nat c ..< min ((i + 1) * nat c) ?n] = take (nat c) (drop (i * nat c) [0..<?n])"
      using take_drop_upt[of "nat c" "i * nat c" ?n] by (simp only: add.commute[of "i * nat c"] add_mult_distrib mult_1)
  qed
  then have "concat (map (\<lambda>i. [i * nat c ..< min ((i + 1) * nat c) ?n]) [0..<?k]) =
          concat (map (\<lambda>i. take (nat c) (drop (i * nat c) [0..<?n])) [0..<?k])"
    by simp
  also have "\<dots> = take (?k * nat c) [0..<?n]"
    by (rule concat_take_drop)
  also have "\<dots> = [0..<?n]"
    using chunks_cover[OF assms(1), of "[0..<?n]"] by simp
  finally have cover: "concat (map (\<lambda>i. [i * nat c ..< min ((i + 1) * nat c) ?n]) [0..<length ?fs]) = [0..<?n]"
    by (simp add: len)
  show ?thesis using count each cover by blast
qed

theorem chunk_layout_witness:
  "(0::int) < 2 \<and> 2 < int (length abc_table) \<and>
   int (length (fst (optimize_parquet_file abc_table 2))) = \<lceil>real (length abc_table) / real_of_int 2\<rceil> \<and>
   concat (map (\<lambda>i. [i * nat 2 ..< min ((i + 1) * nat 2) (length abc_table)])
                   [0..<length (fst (optimize_parquet_file abc_table 2))]) = [0..<length abc_table]"
proof -
  have h1: "(0::int) < 2" by simp
  have h2: "2 < int (length abc_table)" by (simp add: abc_table_def)
  show ?thesis using h1 h2 chunk_layout[OF h1 h2] by blast
qed


section \<open>The sorted output under the simulator\<close>

lemma scan_ascending_no_overlap:
  assumes "sorted_wrt ascending (map snd irs)"
    and "\<And>p ir s. prev_max st = Some p \<Longrightarrow> ir \<in> set irs \<Longrightarrow>
           rg_statistics (snd ir) = Some s \<Longrightarrow> p \<le> stat_min s"
  shows "overlaps (fold (scan_row_group str_str) irs st) = overlaps st"
  using assms
proof (induction irs arbitrary: st)
  case Nil
  then show ?case by simp
next
  case (Cons ir irs)
  show ?case
  proof (cases "rg_statistics (snd ir)")
    case None
    let ?st = "scan_row_group str_str ir st"
    have same: "overlaps ?st = overlaps st" "prev_max ?st = prev_max st"
      using None by (simp_all add: scan_row_group_def)
    have "overlaps (fold (scan_row_group str_str) irs ?st) = overlaps ?st"
    proof (rule Cons.IH)
      show "sorted_wrt ascending (map snd irs)" using Cons.prems(1) by simp
      fix p ir' s'
      assume "prev_max ?st = Some p" "ir' \<in> set irs" "rg_statistics (snd ir') = Some s'"
      then show "p \<le> stat_min s'"
        using Cons.prems(2)[of p ir' s'] same(2) by simp
    qed
    then show ?thesis using same(1) by simp
  next
    case (Some s)
    let ?st = "scan_row_group str_str ir st"
    have pm: "prev_max ?st = Some (stat_max s)"
      using Some by (simp add: scan_row_group_def Let_def str_str_def)
    have "\<not> stat_min s < p" if "prev_max st = Some p" for p
      using Cons.prems(2)[OF that _ Some] by (simp add: not_less)
    then have ov: "overlaps ?st = overlaps st"
      using Some by (simp add: scan_row_group_def Let_def str_str_def split: option.splits)
    have "overlaps (fold (scan_row_group str_str) irs ?st) = overlaps ?st"
    proof (rule Cons.IH)
      show "sorted_wrt ascending (map snd irs)" using Cons.prems(1) by simp
      fix p ir' s'
      assume "prev_max ?st = Some p" "ir' \<in> set irs" "rg_statistics (snd ir') = Some s'"
      moreover have "ascending (snd ir) (snd ir')"
        using Cons.prems(1) \<open>ir' \<in> set irs\<close> by auto
      ultimately show "p \<le> stat_min s'"
        using pm Some by (simp add: ascending_def)
    qed
    then show ?thesis using ov by simp
  qed
qed

lemma split_rows_ascending:
  assumes "sorted (map origin table)"
  shows "sorted_wrt (\<lambda>g h. \<forall>x\<in>set g. \<forall>y\<in>set h. origin x \<le> origin y) (split_rows sz table)"
  using assms
proof (induction sz table rule: split_rows.induct)
  case (1 sz table)
  show ?case
  proof (cases "sz = 0 \<or> table = []")
    case True
    then show ?thesis by (subst split_rows.simps) simp
  next
    case False
    have s: "split_rows sz table = take sz table # split_rows sz (drop sz table)"
      using False by (subst split_rows.simps) simp
    have "sorted (map origin (take sz table) @ map origin (drop sz table))"
      using "1.prems" by (simp flip: map_append)
    then have le: "\<forall>x\<in>set (take sz table). \<forall>y\<in>set (drop sz table). origin x \<le> origin y"
      and sd: "sorted (map origin (drop sz table))"
      by (auto simp: sorted_append)
    have "set h \<subseteq> set (drop sz table)" if "h \<in> set (split_rows sz (drop sz table))" for h
    proof -
      have "concat (split_rows sz (drop sz table)) = drop sz table"
        using False by (simp add: concat_split_rows)
      moreover have "set h \<subseteq> set (concat (split_rows sz (drop sz table)))"
        using that by auto
      ultimately show ?thesis by (simp only:)
    qed
    then have "\<forall>h\<in>set (split_rows sz (drop sz table)).
                 \<forall>x\<in>set (take sz table). \<forall>y\<in>set h. origin x \<le> origin y"
      using le by blast
    moreover have "sorted_wrt (\<lambda>g h. \<forall>x\<in>set g. \<forall>y\<in>set h. origin x \<le> origin y)
                     (split_rows sz (drop sz table))"
      using False sd by (intro "1.IH") auto
    ultimately show ?thesis by (simp add: s)
  qed
qed

lemma write_optimized_parquet_ascending:
  assumes "sorted (map origin table)"
  shows "sorted_wrt (\<lambda>g h. \<forall>x\<in>set g. \<forall>y\<in>set h. origin x \<le> origin y)
           (write_optimized_parquet table)"
  using split_rows_ascending[OF assms]
  by (simp add: write_optimized_parquet_def write_table_def)

lemma read_metadata_ascending:
  assumes "sorted_wrt (\<lambda>g h. \<forall>x\<in>set g. \<forall>y\<in>set h. origin x \<le> origin y) file"
  shows "sorted_wrt ascending (read_metadata file)"
proof -
  have "ascending \<lparr>rg_num_rows = length g, rg_statistics = column_stats (map origin g)\<rparr>
          \<lparr>rg_num_rows = length h, rg_statistics = column_stats (map origin h)\<rparr>"
    if "\<forall>x\<in>set g. \<forall>y\<in>set h. origin x \<le> origin y" for g h :: "('a \<times> 'b) list"
  proof (cases "g = [] \<or> h = []")
    case True
    then show ?thesis by (auto simp: ascending_def column_stats_def)
  next
    case False
    then have "Max (origin ` set g) \<in> origin ` set g" and "Min (origin ` set h) \<in> origin ` set h"
      by (simp_all)
    then have "Max (origin ` set g) \<le> Min (origin ` set h)" using that by auto
    then show ?thesis using False by (simp add: ascending_def column_stats_def)
  qed
  then show ?thesis
    unfolding read_metadata_def sorted_wrt_map
    by (intro sorted_wrt_mono_rel[OF _ assms]) blast
qed

lemma ascending_no_overlap:
  assumes "sorted_wrt ascending rgs"
  shows "rep_overlaps (analyze_statistics str_str rgs m) = 0"
proof -
  have "sorted_wrt ascending (map snd (examined m rgs))"
    using assms by (simp add: map_snd_examined sorted_wrt_take)
  then have "overlaps (fold (scan_row_group str_str) (examined m rgs) scan_init) =
               overlaps (scan_init :: string scan)"
    by (rule scan_ascending_no_overlap) (simp add: scan_init_def)
  then show ?thesis
    by (simp add: analyze_statistics_def Let_def scan_row_groups_def scan_init_def)
qed

lemma sorted_strings_no_overlap:
  fixes table :: "(string \<times> 'v) list"
  assumes "int (length table) \<le> c"
  shows "overlaps_of_run str_str (optimize_parquet_file table c) m = [0]"
proof -
  have "optimize_parquet_file table c =
          ([(Whole, write_optimized_parquet (sort_key origin table))], None)"
    using assms
    by (simp add: optimize_parquet_file_def optimize_with_indices_def take_rows_sort_indices)
  moreover have "sorted_wrt ascending (read_metadata (write_optimized_parquet (sort_key origin table)))"
    by (intro read_metadata_ascending write_optimized_parquet_ascending) simp
  ultimately show ?thesis
    by (simp add: overlaps_of_run_def ascending_no_overlap)
qed

lemma sort_int_table: "sort_key origin int_table = int_table"
  by (rule sort_key_id_if_sorted) (simp add: int_table_def origin_def sorted_append)

lemma write_int_table:
  "write_optimized_parquet int_table = [replicate 100000 (9, ()), [(10, ())]]"
proof -
  have "split_rows 100000 int_table =
          replicate 100000 (9, ()) # split_rows 100000 [(10::int, ())]"
    by (subst split_rows.simps) (simp add: int_table_def)
  also have "split_rows 100000 [(10::int, ())] = [(10, ())] # split_rows 100000 []"
    by (subst split_rows.simps) simp
  also have "split_rows 100000 ([] :: (int \<times> unit) list) = []"
    by (subst split_rows.simps) simp
  finally show ?thesis
    by (simp add: write_optimized_parquet_def write_table_def row_group_size_def int_table_def)
qed

lemma metadata_int_table:
  "read_metadata [replicate 100000 (9::int, ()), [(10, ())]] =
     [with_stats 9 9 100000, with_stats 10 10 1]"
  by (simp add: read_metadata_def column_stats_def with_stats_def origin_def)

text \<open>
  Claim C1 at an integer column.  A table of 100000 rows with key 9 followed by one row
  with key 10 is below the row cap and is written, sorted, as one file of two row groups
  with the statistics \<open>[9, 9]\<close> and \<open>[10, 10]\<close>; the scan of that file counts one overlap,
  because it compares \<open>''10''\<close> with \<open>''9''\<close> as strings.
\<close>

theorem sorted_integers_overlap:
  "optimize_parquet_file int_table 10000000 =
     ([(Whole, [replicate 100000 (9, ()), [(10, ())]])], None) \<and>
   overlaps_of_run str_int (optimize_parquet_file int_table 10000000) 10 = [1]"
proof -
  have "length int_table = 100001" by (simp add: int_table_def)
  then have e: "optimize_parquet_file int_table 10000000 =
     ([(Whole, [replicate 100000 (9, ()), [(10, ())]])], None)"
    by (simp add: optimize_parquet_file_def optimize_with_indices_def take_rows_sort_indices
        sort_int_table write_int_table)
  have "rep_overlaps (analyze_statistics str_int
     (read_metadata [replicate 100000 (9, ()), [(10, ())]]) 10) = 1"
    unfolding metadata_int_table
    by (simp add: simulator_defs str_int_def digit_char_def upt_rec)
  then show ?thesis using e by (simp add: overlaps_of_run_def)
qed


section \<open>Properties of the inspector and of the command line tools\<close>

lemma analyze_stats_main_empty_directory:
  "fs d = Directory names \<Longrightarrow> glob_parquet names = [] \<Longrightarrow>
     analyze_stats_main fs [prog, d] = \<lparr>exit_status = 1, processed = []\<rparr>"
  by (simp add: analyze_stats_main_def)

lemma check_metadata_main_empty_directory:
  "fs d = Directory names \<Longrightarrow> glob_parquet names = [] \<Longrightarrow>
     check_metadata_main fs [prog, d] = \<lparr>exit_status = 1, processed = []\<rparr>"
  by (simp add: check_metadata_main_def)

lemma optimize_main_empty_directory:
  "fs d = Directory names \<Longrightarrow> glob_parquet names = [] \<Longrightarrow>
     optimize_main fs d = \<lparr>exit_status = 0, processed = []\<rparr>"
  by (simp add: optimize_main_def)

text \<open>
  Claim C8 at the optimizer tool.  The input directory exists and holds no file that
  matches \<^verbatim>\<open>*.parquet\<close>: the simulator tool and the inspector tool exit with status 1, and
  the optimizer tool processes nothing and ends with status 0.
\<close>

theorem optimizer_exits_zero_on_empty_directory:
  "analyze_stats_main empty_dir_fs [''analyze_stats.py'', ''input_data'']
     = \<lparr>exit_status = 1, processed = []\<rparr> \<and>
   check_metadata_main empty_dir_fs [''checkParquetMetadata.py'', ''input_data'']
     = \<lparr>exit_status = 1, processed = []\<rparr> \<and>
   optimize_main empty_dir_fs ''input_data'' = \<lparr>exit_status = 0, processed = []\<rparr>"
  by (simp add: analyze_stats_main_def check_metadata_main_def optimize_main_def
      empty_dir_fs_def glob_parquet_def ends_with_def)

lemma no_row_groups_fails:
  "md_row_groups m = [] \<Longrightarrow>
     caught (check_parquet_file (Parquet m)) = Some ZeroDivisionError \<and>
     returned (check_parquet_file (Parquet m)) = False"
  by (simp add: check_parquet_file_def inspect_row_groups_def)

text \<open>
  Claim C9 at a storage unit with 0 rows and 0 row groups.  The inspector prints the row
  count 0 and the row group count 0; the average row group size then divides by the
  number of row groups, the handler catches the \<^verbatim>\<open>ZeroDivisionError\<close>, and the call reports
  an error and returns \<^verbatim>\<open>False\<close>.
\<close>

theorem empty_unit_inspection_fails:
  "check_parquet_file (Parquet empty_unit) =
     \<lparr>printed_num_rows = Some 0, printed_num_row_groups = Some 0, analysis = None,
      caught = Some ZeroDivisionError, returned = False\<rparr>"
  by (simp add: check_parquet_file_def inspect_row_groups_def empty_unit_def)

end
